theory Spec2Isabelle
  imports Main "HOL-Library.Sublist"
begin

section \<open>Strings\<close>

text \<open>
  A Python \<open>str\<close> is modelled as a \<open>string\<close>: one \<open>char\<close> per code point, for the code
  points \<open>0 .. 255\<close>. The built-in string methods the module calls (\<open>startswith\<close>,
  \<open>endswith\<close>, \<open>isspace\<close>, \<open>splitlines\<close>) are written out below on that range.
\<close>

definition startswith :: "string \<Rightarrow> string \<Rightarrow> bool" where
  \<comment> \<open>\<open>string.startswith(prefix)\<close>\<close>
  "startswith string pre \<longleftrightarrow> take (length pre) string = pre"

definition endswith :: "string \<Rightarrow> string list \<Rightarrow> bool" where
  \<comment> \<open>\<open>string.endswith(suffixes)\<close> with a tuple of suffixes: some suffix of the tuple fits\<close>
  "endswith string sufs \<longleftrightarrow>
     list_ex (\<lambda>suf. length suf \<le> length string
                  \<and> drop (length string - length suf) string = suf) sufs"

definition whitespace :: "char \<Rightarrow> bool" where
  \<comment> \<open>the code points below 256 that Python counts as whitespace\<close>
  "whitespace c \<longleftrightarrow>
     c \<in> set [CHR 0x09, CHR 0x0A, CHR 0x0B, CHR 0x0C, CHR 0x0D, CHR 0x1C, CHR 0x1D,
                CHR 0x1E, CHR 0x1F, CHR 0x20, CHR 0x85, CHR 0xA0]"

definition isspace :: "string \<Rightarrow> bool" where
  \<comment> \<open>\<open>line.isspace()\<close>: at least one character, and all of them whitespace\<close>
  "isspace line \<longleftrightarrow> line \<noteq> [] \<and> list_all whitespace line"

definition linebreak :: "char \<Rightarrow> bool" where
  \<comment> \<open>the code points below 256 at which \<open>str.splitlines\<close> ends a line\<close>
  "linebreak c \<longleftrightarrow>
     c \<in> set [CHR 0x0A, CHR 0x0B, CHR 0x0C, CHR 0x0D, CHR 0x1C, CHR 0x1D, CHR 0x1E,
                CHR 0x85]"

fun splitlines_from :: "string \<Rightarrow> string \<Rightarrow> string list" where
  \<comment> \<open>first argument: the characters of the line being read, latest first\<close>
  "splitlines_from cur [] = (if cur = [] then [] else [rev cur])"
| "splitlines_from cur [c] = (if linebreak c then [rev cur] else [rev (c # cur)])"
| "splitlines_from cur (c # d # cs) =
     (if c = CHR 0x0D \<and> d = CHR 0x0A then rev cur # splitlines_from [] cs
      else if linebreak c then rev cur # splitlines_from [] (d # cs)
      else splitlines_from (c # cur) (d # cs))"

definition splitlines :: "string \<Rightarrow> string list" where
  \<comment> \<open>\<open>m3u_string.splitlines()\<close>: line ends dropped, carriage return plus line feed one
      line end, no empty last line after a final line end\<close>
  "splitlines m3u_string = splitlines_from [] m3u_string"


section \<open>Prefix lookup\<close>

fun matched_prefix_dict :: "string \<Rightarrow> (string \<times> 'v) list \<Rightarrow> 'v option \<Rightarrow> 'v option" where
  \<comment> \<open>the dictionary is its items in insertion order; the loop stops at the first key that
      the string starts with\<close>
  "matched_prefix_dict string [] default_value = default_value"
| "matched_prefix_dict string ((pre, v) # prefix_dicts) default_value =
     (if startswith string pre then Some v
      else matched_prefix_dict string prefix_dicts default_value)"


section \<open>File and directory references\<close>

datatype os_error = FileNotFoundError | NotADirectoryError | PermissionError

record filesystem =
  path_exists :: "string \<Rightarrow> bool"
  path_isdir :: "string \<Rightarrow> bool"
  listdir :: "string \<Rightarrow> os_error + string list"

record 'd AudioFileRef =
  source :: string
  external_info :: "'d option"
  exists :: "bool option"
  is_supported :: "bool option"

definition supported_audio_file_extensions :: "string list" where
  "supported_audio_file_extensions = [''.mp3'']"

definition AudioFileRef_init ::
  "filesystem \<Rightarrow> string \<Rightarrow> 'd option \<Rightarrow> bool \<Rightarrow> bool \<Rightarrow> 'd AudioFileRef" where
  "AudioFileRef_init fs src ei validate_existence check_extension =
     \<lparr> source = src,
       external_info = ei,
       exists = (if validate_existence then Some (path_exists fs src) else None),
       is_supported = (if check_extension
                       then Some (endswith src supported_audio_file_extensions)
                       else None) \<rparr>"

record 'd AudioDirRef =
  directory :: string
  audio_files :: "'d AudioFileRef list"
  dir_exists :: "bool option"
  is_dir :: "bool option"

definition AudioDirRef_init ::
  "filesystem \<Rightarrow> string \<Rightarrow> bool \<Rightarrow> bool \<Rightarrow> bool \<Rightarrow> os_error + 'd AudioDirRef" where
  \<comment> \<open>the listing comes first and its failure leaves the constructor; every child is built
      with \<open>external_info\<close> and \<open>validate_existence\<close> at their defaults\<close>
  "AudioDirRef_init fs dir validate_existence validate_directory check_extension =
     (case listdir fs dir of
        Inl err \<Rightarrow> Inl err
      | Inr files \<Rightarrow>
          Inr \<lparr> directory = dir,
                audio_files = map (\<lambda>file. AudioFileRef_init fs file None True check_extension)
                                  files,
                dir_exists = (if validate_existence then Some (path_exists fs dir) else None),
                is_dir = (if validate_directory then Some (path_isdir fs dir) else None) \<rparr>)"


section \<open>Directives\<close>

text \<open>
  The module \<open>py_m3u.directives\<close> is imported by the parser and its text is not available. The parser uses three
  things of it, taken here as a parameter: the dictionary \<open>ALL_DIRECTIVE_PREFIXES\<close> from a
  prefix to a directive class, a class being its \<open>from_m3u_string\<close> (which may raise); the
  property \<open>as_m3u\<close> of a directive object; and whether a directive object is an instance
  of \<open>EXTINF\<close>. Directive objects are values of the type \<open>'d\<close>, what \<open>from_m3u_string\<close>
  raises is a value of \<open>'e\<close>. Classes and directive objects are plain objects, so both are
  true in a condition.
\<close>

record ('d, 'e) directives =
  ALL_DIRECTIVE_PREFIXES :: "(string \<times> (string \<Rightarrow> 'e + 'd)) list"
  as_m3u :: "'d \<Rightarrow> string"
  is_EXTINF :: "'d \<Rightarrow> bool"

datatype 'd m3u_obj = FileRef "'d AudioFileRef" | DirRef "'d AudioDirRef" | Directive 'd


section \<open>The parser\<close>

abbreviation LF :: char where
  "LF \<equiv> CHR 0x0A"

definition dumps_obj :: "('d, 'e) directives \<Rightarrow> string \<Rightarrow> 'd m3u_obj \<Rightarrow> string" where
  \<comment> \<open>one round of the loop of \<open>dumps\<close>: the string so far, and the object to add\<close>
  "dumps_obj D m3u_string m3u_obj =
     (case m3u_obj of
        FileRef f \<Rightarrow>
          m3u_string
            @ (case external_info f of Some ei \<Rightarrow> as_m3u D ei | None \<Rightarrow> [])
            @ [LF] @ source f
      | DirRef d \<Rightarrow> m3u_string @ directory d
      | Directive x \<Rightarrow> m3u_string @ as_m3u D x)
     @ [LF]"

definition dumps :: "('d, 'e) directives \<Rightarrow> 'd m3u_obj list \<Rightarrow> string" where
  "dumps D args = foldl (dumps_obj D) [] args"

record TextIO =
  content :: string
  written :: "string list"

definition TextIO_write :: "TextIO \<Rightarrow> string \<Rightarrow> TextIO" where
  "TextIO_write file_type s = file_type \<lparr> written := written file_type @ [s] \<rparr>"

definition dump :: "('d, 'e) directives \<Rightarrow> TextIO \<Rightarrow> TextIO" where
  \<comment> \<open>\<open>file_type.write(cls.dumps())\<close>: \<open>dumps\<close> is called without objects\<close>
  "dump D file_type = TextIO_write file_type (dumps D [])"

record 'd loads_state =
  parsed_line :: "'d m3u_obj option"
  last_external_info :: "'d option"

definition loads_init :: "'d loads_state" where
  "loads_init = \<lparr> parsed_line = None, last_external_info = None \<rparr>"

definition loads_line ::
  "('d, 'e) directives \<Rightarrow> filesystem \<Rightarrow> 'd loads_state \<Rightarrow> string \<Rightarrow> 'e + 'd loads_state" where
  \<comment> \<open>the body of the loop of \<open>loads\<close> up to the \<open>yield\<close>: the two local variables after
      the line, or what \<open>from_m3u_string\<close> raised\<close>
  "loads_line D fs st line =
     (case matched_prefix_dict line (ALL_DIRECTIVE_PREFIXES D) None of
        Some found_matched_prefix \<Rightarrow>
          (case found_matched_prefix line of
             Inl err \<Rightarrow> Inl err
           | Inr directive_obj \<Rightarrow>
               Inr \<lparr> parsed_line = Some (Directive directive_obj),
                     last_external_info =
                       (if is_EXTINF D directive_obj then Some directive_obj
                        else last_external_info st) \<rparr>)
      | None \<Rightarrow>
          (if \<not> isspace line
           then Inr \<lparr> parsed_line =
                       Some (FileRef (AudioFileRef_init fs line (last_external_info st)
                                        True True)),
                     last_external_info = None \<rparr>
           else Inr st))"

fun loads_lines ::
  "('d, 'e) directives \<Rightarrow> filesystem \<Rightarrow> 'd loads_state \<Rightarrow> string list
     \<Rightarrow> 'd m3u_obj option list \<times> ('e + 'd loads_state)" where
  \<comment> \<open>the values yielded, in order, and how the loop ends: with an exception, or with the
      local variables as they are after the last line\<close>
  "loads_lines D fs st [] = ([], Inr st)"
| "loads_lines D fs st (line # lines) =
     (case loads_line D fs st line of
        Inl err \<Rightarrow> ([], Inl err)
      | Inr st' \<Rightarrow>
          (case loads_lines D fs st' lines of
             (yielded, ending) \<Rightarrow> (parsed_line st' # yielded, ending)))"

definition loads ::
  "('d, 'e) directives \<Rightarrow> filesystem \<Rightarrow> string
     \<Rightarrow> 'd m3u_obj option list \<times> ('e + 'd loads_state)" where
  "loads D fs m3u_string = loads_lines D fs loads_init (splitlines m3u_string)"

definition load ::
  "('d, 'e) directives \<Rightarrow> filesystem \<Rightarrow> TextIO
     \<Rightarrow> 'd m3u_obj option list \<times> ('e + 'd loads_state)" where
  "load D fs file_type = loads D fs (content file_type)"


section \<open>A registry for the examples\<close>

text \<open>
  Modelled from the spec: the metadata directive of the missing module
  \<open>py_m3u.directives\<close>, which the examples below need as a concrete registry. The spec
  gives its line as the prefix, a numeric duration (integer or decimal), a comma and the
  title, which is the rest of the line; a line that has the prefix and not this form is
  malformed. The prefix \<open>#EXTINF:\<close> is the one of the spec's scenario. The duration is kept
  as the numeral written on the line.
\<close>

datatype directive = EXTINF (duration: string) (title: string)

datatype directive_error = MalformedDirectiveError

definition digit :: "char \<Rightarrow> bool" where
  \<comment> \<open>Modelled from the spec: a decimal digit of the duration\<close>
  "digit c \<longleftrightarrow> c \<in> set ''0123456789''"

definition numeric :: "string \<Rightarrow> bool" where
  \<comment> \<open>Modelled from the spec: an integer or a decimal, with an optional sign\<close>
  "numeric s =
     (let u = (if take 1 s = ''-'' then drop 1 s else s);
          whole = takeWhile digit u;
          rest = dropWhile digit u
      in whole \<noteq> [] \<and> (rest = [] \<or> (take 1 rest = ''.'' \<and> drop 1 rest \<noteq> []
                                        \<and> list_all digit (drop 1 rest))))"

definition EXTINF_prefix :: string where
  \<comment> \<open>Modelled from the spec: the prefix of the metadata line in the spec's scenario\<close>
  "EXTINF_prefix = ''#EXTINF:''"

definition EXTINF_from_m3u_string :: "string \<Rightarrow> directive_error + directive" where
  \<comment> \<open>Modelled from the spec: the duration up to the first comma, the title after it\<close>
  "EXTINF_from_m3u_string line =
     (let body = drop (length EXTINF_prefix) line;
          dur = takeWhile (\<lambda>c. c \<noteq> CHR '','') body;
          rest = dropWhile (\<lambda>c. c \<noteq> CHR '','') body
      in if rest \<noteq> [] \<and> numeric dur then Inr (EXTINF dur (drop 1 rest))
         else Inl MalformedDirectiveError)"

definition EXTINF_as_m3u :: "directive \<Rightarrow> string" where
  \<comment> \<open>Modelled from the spec: prefix, duration, comma, title\<close>
  "EXTINF_as_m3u d = EXTINF_prefix @ duration d @ '','' @ title d"

definition spec_directives :: "(directive, directive_error) directives" where
  \<comment> \<open>Modelled from the spec: the registry holding the metadata directive alone\<close>
  "spec_directives =
     \<lparr> ALL_DIRECTIVE_PREFIXES = [(EXTINF_prefix, EXTINF_from_m3u_string)],
       as_m3u = EXTINF_as_m3u,
       is_EXTINF = (\<lambda>d. True) \<rparr>"

definition music_fs :: filesystem where
  \<comment> \<open>a file system for the examples: the directory \<open>/music\<close> with three entries\<close>
  "music_fs =
     \<lparr> path_exists = (\<lambda>p. p \<in> set [''/music'', ''/music/song.mp3'', ''/music/image.jpg'',
                                    ''/music/readme.txt'']),
       path_isdir = (\<lambda>p. p = ''/music''),
       listdir = (\<lambda>p. if p = ''/music'' then Inr [''song.mp3'', ''image.jpg'', ''readme.txt'']
                       else if p \<in> set [''/music/song.mp3'', ''/music/image.jpg'',
                                            ''/music/readme.txt'']
                       then Inl NotADirectoryError
                       else Inl FileNotFoundError) \<rparr>"


section \<open>Playlists that are written and read back\<close>

text \<open>
  The playlists for which writing and reading back is stated below: bare directives, and
  file references that carry a metadata directive. Every directive is rendered to one line
  that its class reads back, and every source is one line that is read as a path.
\<close>

definition single_line :: "string \<Rightarrow> bool" where
  \<comment> \<open>a string that \<open>splitlines\<close> does not cut\<close>
  "single_line l \<longleftrightarrow> list_all (\<lambda>c. \<not> linebreak c) l"

definition parses_back :: "('d, 'e) directives \<Rightarrow> 'd \<Rightarrow> bool" where
  \<comment> \<open>the line of the directive is one line, and the class found for it by its prefix
      reads the directive back from it\<close>
  "parses_back D d \<longleftrightarrow>
     single_line (as_m3u D d)
     \<and> (case matched_prefix_dict (as_m3u D d) (ALL_DIRECTIVE_PREFIXES D) None of
          None \<Rightarrow> False
        | Some cls \<Rightarrow> cls (as_m3u D d) = Inr d)"

definition is_path_line :: "('d, 'e) directives \<Rightarrow> string \<Rightarrow> bool" where
  \<comment> \<open>one line that \<open>loads\<close> takes for a path: no registered prefix, not whitespace-only\<close>
  "is_path_line D l \<longleftrightarrow>
     single_line l \<and> \<not> isspace l
     \<and> matched_prefix_dict l (ALL_DIRECTIVE_PREFIXES D) None = None"

fun well_formed :: "('d, 'e) directives \<Rightarrow> 'd m3u_obj \<Rightarrow> bool" where
  "well_formed D (Directive d) = parses_back D d"
| "well_formed D (FileRef f) =
     (case external_info f of
        None \<Rightarrow> False
      | Some ei \<Rightarrow> parses_back D ei \<and> is_EXTINF D ei \<and> is_path_line D (source f))"
| "well_formed D (DirRef r) = False"

fun loaded :: "filesystem \<Rightarrow> 'd m3u_obj \<Rightarrow> 'd m3u_obj list" where
  \<comment> \<open>what the lines written for one object read back as: a file reference with metadata
      comes back as the metadata directive and then the file reference\<close>
  "loaded fs (Directive d) = [Directive d]"
| "loaded fs (FileRef f) =
     (case external_info f of
        None \<Rightarrow> []
      | Some ei \<Rightarrow> [Directive ei, FileRef (AudioFileRef_init fs (source f) (Some ei) True True)])"
| "loaded fs (DirRef r) = []"

fun m3u_lines :: "('d, 'e) directives \<Rightarrow> 'd m3u_obj \<Rightarrow> string list" where
  \<comment> \<open>the lines that \<open>dumps\<close> writes for one object\<close>
  "m3u_lines D (Directive d) = [as_m3u D d]"
| "m3u_lines D (FileRef f) =
     (case external_info f of None \<Rightarrow> ['''', source f] | Some ei \<Rightarrow> [as_m3u D ei, source f])"
| "m3u_lines D (DirRef r) = [directory r]"

definition join_lines :: "string list \<Rightarrow> string" where
  "join_lines ls = concat (map (\<lambda>l. l @ [LF]) ls)"


section \<open>Evaluation\<close>

lemmas str_eval = splitlines_def linebreak_def isspace_def whitespace_def startswith_def

lemmas spec_eval = spec_directives_def EXTINF_prefix_def EXTINF_from_m3u_string_def
  numeric_def digit_def Let_def

lemmas ref_eval = AudioFileRef_init_def AudioDirRef_init_def music_fs_def endswith_def
  supported_audio_file_extensions_def

section \<open>Prefix lookup: first match in insertion order\<close>

lemma startswith_prefix: "startswith s p \<longleftrightarrow> prefix p s"
  unfolding startswith_def
  by (metis append_eq_conv_conj prefix_def)

lemma matched_prefix_dict_none:
  "list_all (\<lambda>(p, v). \<not> startswith s p) d \<Longrightarrow> matched_prefix_dict s d dflt = dflt"
  by (induction d) auto

lemma matched_prefix_dict_first:
  "i < length d \<Longrightarrow> startswith s (fst (d ! i)) \<Longrightarrow>
   list_all (\<lambda>(p, v). \<not> startswith s p) (take i d) \<Longrightarrow>
   matched_prefix_dict s d dflt = Some (snd (d ! i))"
proof (induction d arbitrary: i)
  case Nil
  then show ?case by simp
next
  case (Cons a d)
  obtain p v where a: "a = (p, v)" by (cases a)
  show ?case
  proof (cases i)
    case 0
    with Cons.prems a show ?thesis by simp
  next
    case (Suc j)
    with Cons.prems a have "\<not> startswith s p" by simp
    moreover from Suc Cons.prems have "matched_prefix_dict s d dflt = Some (snd (d ! j))"
      by (intro Cons.IH) auto
    ultimately show ?thesis using a Suc by simp
  qed
qed

text \<open>
  Claim C7. The lookup returns the value of the first key, in insertion order, that is a
  literal prefix of the line, and the default when no key is one. With the keys \<open>AB\<close> and
  \<open>A\<close> inserted in that order, the line \<open>ABC\<close> gets the value stored under \<open>AB\<close>.
\<close>

theorem matched_prefix_dict_first_match:
  "(i < length d \<and> prefix (fst (d ! i)) s \<and> (\<forall>j < i. \<not> prefix (fst (d ! j)) s)
      \<longrightarrow> matched_prefix_dict s d dflt = Some (snd (d ! i)))
   \<and> ((\<forall>j < length d. \<not> prefix (fst (d ! j)) s) \<longrightarrow> matched_prefix_dict s d dflt = dflt)
   \<and> matched_prefix_dict ''ABC'' [(''AB'', vAB), (''A'', vA)] None = Some vAB"
proof (intro conjI impI)
  assume h: "i < length d \<and> prefix (fst (d ! i)) s \<and> (\<forall>j < i. \<not> prefix (fst (d ! j)) s)"
  then have "list_all (\<lambda>(p, v). \<not> startswith s p) (take i d)"
    by (auto simp: list_all_length startswith_prefix split: prod.splits)
  with h show "matched_prefix_dict s d dflt = Some (snd (d ! i))"
    by (simp add: matched_prefix_dict_first startswith_prefix)
next
  assume "\<forall>j < length d. \<not> prefix (fst (d ! j)) s"
  then have "list_all (\<lambda>(p, v). \<not> startswith s p) d"
    by (auto simp: list_all_length startswith_prefix split: prod.splits)
  then show "matched_prefix_dict s d dflt = dflt"
    by (rule matched_prefix_dict_none)
next
  show "matched_prefix_dict ''ABC'' [(''AB'', vAB), (''A'', vA)] None = Some vAB"
    by (simp add: startswith_def)
qed

theorem matched_prefix_dict_first_match_witness:
  "(1::nat) < length [(''#X'', 1::nat), (''AB'', 2), (''A'', 3)]
   \<and> prefix (fst ([(''#X'', 1::nat), (''AB'', 2), (''A'', 3)] ! 1)) ''ABC''
   \<and> \<not> prefix (fst ([(''#X'', 1::nat), (''AB'', 2), (''A'', 3)] ! 0)) ''ABC''
   \<and> matched_prefix_dict ''ABC'' [(''#X'', 1::nat), (''AB'', 2), (''A'', 3)] None = Some 2
   \<and> matched_prefix_dict ''ABC'' [(''#X'', 1::nat)] (Some 7) = Some 7"
proof -
  let ?d = "[(''#X'', 1::nat), (''AB'', 2), (''A'', 3)]"
  have h1: "(1::nat) < length ?d \<and> prefix (fst (?d ! 1)) ''ABC''
            \<and> (\<forall>j < (1::nat). \<not> prefix (fst (?d ! j)) ''ABC'')"
    by simp
  have h2: "\<forall>j < length [(''#X'', 1::nat)]. \<not> prefix (fst ([(''#X'', 1::nat)] ! j)) ''ABC''"
    by simp
  have "matched_prefix_dict ''ABC'' ?d None = Some (snd (?d ! 1))"
    by (rule matched_prefix_dict_first_match
               [of 1 ?d "''ABC''" None, THEN conjunct1, THEN mp, OF h1])
  then have r1: "matched_prefix_dict ''ABC'' ?d None = Some 2"
    by (simp add: startswith_def)
  have r2: "matched_prefix_dict ''ABC'' [(''#X'', 1::nat)] (Some 7) = Some 7"
    by (rule matched_prefix_dict_first_match
               [of 0 "[(''#X'', 1::nat)]" "''ABC''" "Some 7", THEN conjunct2, THEN conjunct1,
                THEN mp, OF h2])
  have h0: "\<not> prefix (fst (?d ! 0)) ''ABC''"
    by simp
  show ?thesis
    by (intro conjI h1 [THEN conjunct1] h1 [THEN conjunct2, THEN conjunct1] h0 r1 r2)
qed


section \<open>The loop of loads\<close>

lemma loads_line_blank:
  "isspace l \<Longrightarrow> matched_prefix_dict l (ALL_DIRECTIVE_PREFIXES D) None = None \<Longrightarrow>
   loads_line D fs st l = Inr st"
  by (simp add: loads_line_def)

lemma loads_line_path:
  "\<not> isspace l \<Longrightarrow> matched_prefix_dict l (ALL_DIRECTIVE_PREFIXES D) None = None \<Longrightarrow>
   loads_line D fs st l =
     Inr \<lparr> parsed_line = Some (FileRef (AudioFileRef_init fs l (last_external_info st) True True)),
           last_external_info = None \<rparr>"
  by (simp add: loads_line_def)

lemma loads_line_directive:
  "matched_prefix_dict l (ALL_DIRECTIVE_PREFIXES D) None = Some cls \<Longrightarrow> cls l = Inr d \<Longrightarrow>
   loads_line D fs st l =
     Inr \<lparr> parsed_line = Some (Directive d),
           last_external_info = (if is_EXTINF D d then Some d else last_external_info st) \<rparr>"
  by (simp add: loads_line_def)

lemma loads_lines_append:
  "loads_lines D fs st (xs @ ys) =
     (case loads_lines D fs st xs of
        (a, Inl e) \<Rightarrow> (a, Inl e)
      | (a, Inr st') \<Rightarrow> (case loads_lines D fs st' ys of (b, r) \<Rightarrow> (a @ b, r)))"
  by (induction xs arbitrary: st) (auto split: sum.splits prod.splits)

lemma loads_lines_length:
  "loads_lines D fs st xs = (a, Inr st') \<Longrightarrow> length a = length xs"
  by (induction xs arbitrary: st a) (auto split: sum.splits prod.splits)

lemma loads_lines_blanks:
  "list_all (\<lambda>l. isspace l \<and> matched_prefix_dict l (ALL_DIRECTIVE_PREFIXES D) None = None) blanks
   \<Longrightarrow> loads_lines D fs st blanks = (replicate (length blanks) (parsed_line st), Inr st)"
  by (induction blanks) (auto simp: loads_line_blank)

text \<open>
  Leading lines of one or more whitespace characters, none of them starting with a
  registered prefix, leave \<open>parsed_line\<close> as it is at the start: \<open>loads\<close> yields \<open>None\<close> for
  each of them, and goes on with what the remaining lines give.
\<close>

lemma loads_leading_whitespace_lines:
  assumes "splitlines m3u_string = blanks @ rest"
    and "list_all (\<lambda>l. isspace l \<and> matched_prefix_dict l (ALL_DIRECTIVE_PREFIXES D) None = None)
           blanks"
  shows "fst (loads D fs m3u_string)
           = replicate (length blanks) None @ fst (loads_lines D fs loads_init rest)"
  using assms
  by (simp add: loads_def loads_lines_append loads_lines_blanks loads_init_def
           split: prod.splits sum.splits)

text \<open>
  Claim C9, at an input whose first line is empty, with the registry of the examples. The
  empty line is a blank line, and \<open>str.isspace\<close> is false for it, as it needs at least one
  character: \<open>loads\<close> constructs a file reference with the empty source for the first line,
  and the first item yielded is that reference, not \<open>None\<close>.
\<close>

theorem loads_leading_empty_line:
  "fst (loads spec_directives music_fs ([LF] @ ''x.mp3''))
     = [Some (FileRef \<lparr> source = '''', external_info = None,
                         exists = Some False, is_supported = Some False \<rparr>),
        Some (FileRef \<lparr> source = ''x.mp3'', external_info = None,
                         exists = Some False, is_supported = Some True \<rparr>)]
   \<and> fst (loads spec_directives music_fs ([LF] @ ''x.mp3'')) ! 0 \<noteq> None"
  by (simp add: loads_def loads_init_def loads_line_def str_eval spec_eval ref_eval)

text \<open>
  Claim C6. When a line that parses to a metadata directive is directly followed by a path
  line (no registered prefix, not whitespace-only), the file reference yielded for the path
  line carries that directive as its \<open>external_info\<close>, and after the path line the pending
  metadata \<open>last_external_info\<close> is absent again.
\<close>

theorem loads_attaches_metadata:
  assumes "splitlines m3u_string = before @ extinf_line # path_line # after"
    and "loads_lines D fs loads_init before = (ys, Inr st)"
    and "matched_prefix_dict extinf_line (ALL_DIRECTIVE_PREFIXES D) None = Some cls"
    and "cls extinf_line = Inr d"
    and "is_EXTINF D d"
    and "matched_prefix_dict path_line (ALL_DIRECTIVE_PREFIXES D) None = None"
    and "\<not> isspace path_line"
  shows "fst (loads D fs m3u_string) ! (length before + 1)
           = Some (FileRef (AudioFileRef_init fs path_line (Some d) True True))
         \<and> external_info (AudioFileRef_init fs path_line (Some d) True True) = Some d
         \<and> snd (loads_lines D fs loads_init (before @ [extinf_line, path_line]))
             = Inr \<lparr> parsed_line =
                       Some (FileRef (AudioFileRef_init fs path_line (Some d) True True)),
                     last_external_info = None \<rparr>"
proof -
  let ?st1 = "\<lparr> parsed_line = Some (Directive d), last_external_info = Some d \<rparr>"
  let ?f = "FileRef (AudioFileRef_init fs path_line (Some d) True True)"
  let ?st2 = "\<lparr> parsed_line = Some ?f, last_external_info = None \<rparr>"
  have s1: "loads_line D fs st extinf_line = Inr ?st1"
    using assms(3,4,5) by (simp add: loads_line_directive)
  have s2: "loads_line D fs ?st1 path_line = Inr ?st2"
    using assms(6,7) by (simp add: loads_line_path)
  have len: "length ys = length before"
    using assms(2) by (rule loads_lines_length)
  obtain zs r where tl: "loads_lines D fs ?st2 after = (zs, r)"
    by (cases "loads_lines D fs ?st2 after")
  have "loads_lines D fs loads_init (before @ extinf_line # path_line # after)
          = (ys @ Some (Directive d) # Some ?f # zs, r)"
    using assms(2) s1 s2 tl by (simp add: loads_lines_append)
  then have a: "fst (loads D fs m3u_string) ! (length before + 1) = Some ?f"
    using assms(1) len by (simp add: loads_def nth_append)
  have b: "external_info (AudioFileRef_init fs path_line (Some d) True True) = Some d"
    by (simp add: AudioFileRef_init_def)
  have c: "snd (loads_lines D fs loads_init (before @ [extinf_line, path_line])) = Inr ?st2"
    using assms(2) s1 s2 by (simp add: loads_lines_append)
  from a b c show ?thesis by (intro conjI)
qed

theorem loads_attaches_metadata_witness:
  "splitlines (''#EXTINF:123,My Song'' @ [LF] @ ''/music/song.mp3'' @ [LF])
     = [] @ ''#EXTINF:123,My Song'' # ''/music/song.mp3'' # []
   \<and> loads_lines spec_directives music_fs loads_init [] = ([], Inr loads_init)
   \<and> matched_prefix_dict ''#EXTINF:123,My Song'' (ALL_DIRECTIVE_PREFIXES spec_directives) None
       = Some EXTINF_from_m3u_string
   \<and> EXTINF_from_m3u_string ''#EXTINF:123,My Song'' = Inr (EXTINF ''123'' ''My Song'')
   \<and> is_EXTINF spec_directives (EXTINF ''123'' ''My Song'')
   \<and> matched_prefix_dict ''/music/song.mp3'' (ALL_DIRECTIVE_PREFIXES spec_directives) None = None
   \<and> \<not> isspace ''/music/song.mp3''
   \<and> fst (loads spec_directives music_fs
             (''#EXTINF:123,My Song'' @ [LF] @ ''/music/song.mp3'' @ [LF])) ! 1
       = Some (FileRef \<lparr> source = ''/music/song.mp3'',
                          external_info = Some (EXTINF ''123'' ''My Song''),
                          exists = Some True, is_supported = Some True \<rparr>)"
proof -
  have h1: "splitlines (''#EXTINF:123,My Song'' @ [LF] @ ''/music/song.mp3'' @ [LF])
     = [] @ ''#EXTINF:123,My Song'' # ''/music/song.mp3'' # []"
    by (simp add: str_eval)
  have h2: "loads_lines spec_directives music_fs loads_init [] = ([], Inr loads_init)"
    by simp
  have h3: "matched_prefix_dict ''#EXTINF:123,My Song'' (ALL_DIRECTIVE_PREFIXES spec_directives)
              None = Some EXTINF_from_m3u_string"
    by (simp add: spec_directives_def EXTINF_prefix_def startswith_def)
  have h4: "EXTINF_from_m3u_string ''#EXTINF:123,My Song'' = Inr (EXTINF ''123'' ''My Song'')"
    by (simp add: spec_eval)
  have h5: "is_EXTINF spec_directives (EXTINF ''123'' ''My Song'')"
    by (simp add: spec_directives_def)
  have h6: "matched_prefix_dict ''/music/song.mp3'' (ALL_DIRECTIVE_PREFIXES spec_directives) None
              = None"
    by (simp add: spec_directives_def EXTINF_prefix_def startswith_def)
  have h7: "\<not> isspace ''/music/song.mp3''"
    by (simp add: isspace_def whitespace_def)
  have f: "AudioFileRef_init music_fs ''/music/song.mp3'' (Some (EXTINF ''123'' ''My Song''))
             True True
           = \<lparr> source = ''/music/song.mp3'', external_info = Some (EXTINF ''123'' ''My Song''),
               exists = Some True, is_supported = Some True \<rparr>"
    by (simp add: AudioFileRef_init_def music_fs_def endswith_def
                  supported_audio_file_extensions_def)
  have "fst (loads spec_directives music_fs
             (''#EXTINF:123,My Song'' @ [LF] @ ''/music/song.mp3'' @ [LF])) ! 1
       = Some (FileRef \<lparr> source = ''/music/song.mp3'',
                          external_info = Some (EXTINF ''123'' ''My Song''),
                          exists = Some True, is_supported = Some True \<rparr>)"
    using loads_attaches_metadata [OF h1 h2 h3 h4 h5 h6 h7, THEN conjunct1] by (simp add: f)
  with h1 h2 h3 h4 h5 h6 h7 show ?thesis by (intro conjI)
qed

section \<open>The references\<close>

text \<open>
  Claim C4, at the directory \<open>/music\<close> of the example file system, whose entries are
  \<open>song.mp3\<close>, \<open>image.jpg\<close> and \<open>readme.txt\<close>, with the default arguments. The constructor
  wraps every entry of the listing: \<open>audio_files\<close> holds three file references, not one.
  The reference of \<open>song.mp3\<close> is marked supported, and the references of \<open>image.jpg\<close> and
  \<open>readme.txt\<close> are kept and marked unsupported.
\<close>

theorem audio_dir_children_unfiltered:
  "\<not> isl (AudioDirRef_init music_fs ''/music'' True True True :: os_error + directive AudioDirRef)
   \<and> map source (audio_files (projr
         (AudioDirRef_init music_fs ''/music'' True True True :: os_error + directive AudioDirRef)))
       = [''song.mp3'', ''image.jpg'', ''readme.txt'']
   \<and> map is_supported (audio_files (projr
         (AudioDirRef_init music_fs ''/music'' True True True :: os_error + directive AudioDirRef)))
       = [Some True, Some False, Some False]
   \<and> length (audio_files (projr
         (AudioDirRef_init music_fs ''/music'' True True True :: os_error + directive AudioDirRef)))
       \<noteq> 1"
  by (simp add: ref_eval)



lemma loads_line_raise:
  "loads_line D fs st l = Inl err \<Longrightarrow>
   \<exists>cls. matched_prefix_dict l (ALL_DIRECTIVE_PREFIXES D) None = Some cls \<and> cls l = Inl err"
  by (auto simp: loads_line_def split: option.splits sum.splits if_splits)

lemma loads_lines_raise:
  "snd (loads_lines D fs st ls) = Inl err \<Longrightarrow>
   \<exists>l \<in> set ls. \<exists>cls. matched_prefix_dict l (ALL_DIRECTIVE_PREFIXES D) None = Some cls
                       \<and> cls l = Inl err"
proof (induction ls arbitrary: st)
  case Nil
  then show ?case by simp
next
  case (Cons l ls)
  show ?case
  proof (cases "loads_line D fs st l")
    case (Inl e)
    with Cons.prems have "e = err" by simp
    with Inl loads_line_raise [of D fs st l err] show ?thesis by auto
  next
    case (Inr st')
    with Cons.prems have "snd (loads_lines D fs st' ls) = Inl err"
      by (simp split: prod.splits)
    from Cons.IH [OF this] show ?thesis by auto
  qed
qed

text \<open>
  Claim C8. When the directory cannot be listed, the constructor of a directory reference
  fails with the very error of the listing, and it fails in no other case. Constructing a
  file reference never fails: for a path that does not exist the \<open>exists\<close> field holds
  \<open>False\<close>. What \<open>loads\<close> raises, although it constructs file references with the
  existence check, is always what the class of a directive raised on one of the lines.
\<close>

theorem listing_failure_propagates:
  "(listdir fs dir = Inl err
      \<longrightarrow> AudioDirRef_init fs dir validate_existence validate_directory check_extension = Inl err)
   \<and> (isl (AudioDirRef_init fs dir validate_existence validate_directory check_extension)
      \<longrightarrow> isl (listdir fs dir))
   \<and> (\<not> path_exists fs src
      \<longrightarrow> exists (AudioFileRef_init fs src ei True check_extension) = Some False)
   \<and> (snd (loads D fs m3u_string) = Inl derr
      \<longrightarrow> (\<exists>line \<in> set (splitlines m3u_string). \<exists>cls.
             matched_prefix_dict line (ALL_DIRECTIVE_PREFIXES D) None = Some cls
             \<and> cls line = Inl derr))"
proof (intro conjI impI)
  assume "listdir fs dir = Inl err"
  then show "AudioDirRef_init fs dir validate_existence validate_directory check_extension
               = Inl err"
    by (simp add: AudioDirRef_init_def)
next
  assume "isl (AudioDirRef_init fs dir validate_existence validate_directory check_extension)"
  then show "isl (listdir fs dir)"
    by (simp add: AudioDirRef_init_def split: sum.splits)
next
  assume "\<not> path_exists fs src"
  then show "exists (AudioFileRef_init fs src ei True check_extension) = Some False"
    by (simp add: AudioFileRef_init_def)
next
  assume "snd (loads D fs m3u_string) = Inl derr"
  then show "\<exists>line \<in> set (splitlines m3u_string). \<exists>cls.
             matched_prefix_dict line (ALL_DIRECTIVE_PREFIXES D) None = Some cls
             \<and> cls line = Inl derr"
    unfolding loads_def by (rule loads_lines_raise)
qed

theorem listing_failure_propagates_witness:
  "listdir music_fs ''/missing'' = Inl FileNotFoundError
   \<and> (AudioDirRef_init music_fs ''/missing'' True True True :: os_error + directive AudioDirRef)
       = Inl FileNotFoundError
   \<and> isl (AudioDirRef_init music_fs ''/missing'' True True True :: os_error + directive AudioDirRef)
   \<and> isl (listdir music_fs ''/missing'')
   \<and> \<not> path_exists music_fs ''/missing.mp3''
   \<and> exists (AudioFileRef_init music_fs ''/missing.mp3'' (None :: directive option) True True)
       = Some False
   \<and> snd (loads spec_directives music_fs ''#EXTINF:abc'') = Inl MalformedDirectiveError
   \<and> (\<exists>line \<in> set (splitlines ''#EXTINF:abc''). \<exists>cls.
         matched_prefix_dict line (ALL_DIRECTIVE_PREFIXES spec_directives) None = Some cls
         \<and> cls line = Inl MalformedDirectiveError)"
proof -
  have h1: "listdir music_fs ''/missing'' = Inl FileNotFoundError"
    by (simp add: music_fs_def)
  have h2: "isl (AudioDirRef_init music_fs ''/missing'' True True True
                   :: os_error + directive AudioDirRef)"
    by (simp add: ref_eval)
  have h3: "\<not> path_exists music_fs ''/missing.mp3''"
    by (simp add: music_fs_def)
  have h4: "snd (loads spec_directives music_fs ''#EXTINF:abc'') = Inl MalformedDirectiveError"
    by (simp add: loads_def loads_init_def loads_line_def str_eval spec_eval)
  note t = listing_failure_propagates
             [of music_fs "''/missing''" FileNotFoundError True True True "''/missing.mp3''"
                 "None :: directive option" spec_directives "''#EXTINF:abc''"
                 MalformedDirectiveError]
  have r1: "(AudioDirRef_init music_fs ''/missing'' True True True
               :: os_error + directive AudioDirRef) = Inl FileNotFoundError"
    by (rule t [THEN conjunct1, THEN mp, OF h1])
  have r2: "isl (listdir music_fs ''/missing'')"
    by (rule t [THEN conjunct2, THEN conjunct1, THEN mp, OF h2])
  have r3: "exists (AudioFileRef_init music_fs ''/missing.mp3'' (None :: directive option)
                      True True) = Some False"
    by (rule t [THEN conjunct2, THEN conjunct2, THEN conjunct1, THEN mp, OF h3])
  have r4: "\<exists>line \<in> set (splitlines ''#EXTINF:abc''). \<exists>cls.
         matched_prefix_dict line (ALL_DIRECTIVE_PREFIXES spec_directives) None = Some cls
         \<and> cls line = Inl MalformedDirectiveError"
    by (rule t [THEN conjunct2, THEN conjunct2, THEN conjunct2, THEN mp, OF h4])
  show ?thesis
    by (intro conjI h1 r1 h2 r2 h3 r3 h4 r4)
qed


section \<open>Writing\<close>

text \<open>
  Claim C10. \<open>dump\<close> writes the empty string to the file handle, whatever the handle:
  it takes no playlist objects and calls \<open>dumps\<close> without any, and \<open>dumps\<close> of no object is
  the empty string.
\<close>

theorem dump_writes_empty_string:
  "dump D file_type = file_type \<lparr> written := written file_type @ [''''] \<rparr>
   \<and> dumps D [] = ''''"
  by (simp add: dump_def dumps_def TextIO_write_def)

text \<open>
  Claim C3, at a file reference without \<open>external_info\<close>: \<open>dumps\<close> puts a line feed before
  the source as well as after it, so the output for the reference is an empty line and then
  the source line, not the source line alone.
\<close>

theorem dumps_file_without_metadata:
  "dumps D [FileRef (AudioFileRef_init fs src None validate_existence check_extension)]
     = [LF] @ src @ [LF]
   \<and> dumps D [FileRef (AudioFileRef_init fs src None validate_existence check_extension)]
     \<noteq> src @ [LF]"
proof -
  have a: "dumps D [FileRef (AudioFileRef_init fs src None validate_existence check_extension)]
             = [LF] @ src @ [LF]"
    by (simp add: dumps_def dumps_obj_def AudioFileRef_init_def)
  have "length ([LF] @ src @ [LF]) \<noteq> length (src @ [LF])"
    by simp
  then have "[LF] @ src @ [LF] \<noteq> src @ [LF]"
    by (metis (no_types))
  with a show ?thesis by simp
qed


section \<open>Empty lines\<close>

text \<open>
  Claim C2, at the input of its scenario, with the registry of the examples. The empty
  middle line is not whitespace-only for \<open>str.isspace\<close>, which needs at least one
  character: \<open>loads\<close> constructs a file reference with the empty source for it, and the
  second item yielded is that new reference, not the first item again.
\<close>

theorem loads_empty_line_makes_file:
  "fst (loads spec_directives music_fs (''/music/a.mp3'' @ [LF, LF] @ ''/music/b.mp3'' @ [LF]))
     = [Some (FileRef \<lparr> source = ''/music/a.mp3'', external_info = None,
                         exists = Some False, is_supported = Some True \<rparr>),
        Some (FileRef \<lparr> source = '''', external_info = None,
                         exists = Some False, is_supported = Some False \<rparr>),
        Some (FileRef \<lparr> source = ''/music/b.mp3'', external_info = None,
                         exists = Some False, is_supported = Some True \<rparr>)]"
  by (simp add: loads_def loads_init_def loads_line_def str_eval spec_eval ref_eval)

section \<open>Writing and reading back\<close>

lemma dumps_obj_acc: "dumps_obj D acc x = acc @ dumps_obj D [] x"
  by (simp add: dumps_obj_def split: m3u_obj.splits)

lemma foldl_dumps_obj:
  "foldl (dumps_obj D) acc args = acc @ concat (map (dumps_obj D []) args)"
proof (induction args arbitrary: acc)
  case Nil
  then show ?case by simp
next
  case (Cons x args)
  have "foldl (dumps_obj D) acc (x # args) = foldl (dumps_obj D) (dumps_obj D acc x) args"
    by simp
  also have "\<dots> = dumps_obj D acc x @ concat (map (dumps_obj D []) args)"
    by (rule Cons.IH)
  also have "\<dots> = acc @ dumps_obj D [] x @ concat (map (dumps_obj D []) args)"
    using dumps_obj_acc [of D acc x] by simp
  finally show ?case by simp
qed

lemma dumps_obj_lines: "dumps_obj D [] x = join_lines (m3u_lines D x)"
  by (cases x) (simp_all add: dumps_obj_def join_lines_def split: option.splits)

lemma join_lines_append: "join_lines (xs @ ys) = join_lines xs @ join_lines ys"
  by (simp add: join_lines_def)

lemma dumps_lines: "dumps D args = join_lines (concat (map (m3u_lines D) args))"
proof -
  have "concat (map (dumps_obj D []) args) = join_lines (concat (map (m3u_lines D) args))"
    by (induction args) (simp_all add: dumps_obj_lines join_lines_append, simp add: join_lines_def)
  then show ?thesis by (simp add: dumps_def foldl_dumps_obj)
qed

lemma LF_linebreak: "linebreak LF"
  by (simp add: linebreak_def)

lemma splitlines_from_line:
  "single_line l \<Longrightarrow> splitlines_from cur (l @ LF # rest) = (rev cur @ l) # splitlines_from [] rest"
proof (induction l arbitrary: cur)
  case Nil
  show ?case by (cases rest) (simp_all add: LF_linebreak)
next
  case (Cons c l)
  then have c: "\<not> linebreak c" and l: "single_line l"
    by (simp_all add: single_line_def)
  obtain d ds where tl: "l @ LF # rest = d # ds"
    by (cases "l @ LF # rest") simp_all
  have "splitlines_from cur ((c # l) @ LF # rest) = splitlines_from (c # cur) (l @ LF # rest)"
    using c tl by (auto simp: linebreak_def)
  also have "\<dots> = (rev (c # cur) @ l) # splitlines_from [] rest"
    using l by (rule Cons.IH)
  finally show ?case by simp
qed

lemma splitlines_join:
  "list_all single_line ls \<Longrightarrow> splitlines (join_lines ls) = ls"
proof -
  assume "list_all single_line ls"
  then have "splitlines_from [] (join_lines ls) = ls"
    by (induction ls) (simp_all add: join_lines_def splitlines_from_line)
  then show ?thesis by (simp add: splitlines_def)
qed

lemma well_formed_lines: "well_formed D x \<Longrightarrow> list_all single_line (m3u_lines D x)"
  by (cases x) (auto simp: parses_back_def is_path_line_def split: option.splits)

lemma loads_line_parses_back:
  "parses_back D d \<Longrightarrow>
   loads_line D fs st (as_m3u D d) =
     Inr \<lparr> parsed_line = Some (Directive d),
           last_external_info = (if is_EXTINF D d then Some d else last_external_info st) \<rparr>"
  by (auto simp: parses_back_def loads_line_directive split: option.splits)

lemma loads_lines_obj:
  "well_formed D x \<Longrightarrow>
   \<exists>st'. loads_lines D fs st (m3u_lines D x) = (map Some (loaded fs x), Inr st')"
proof (cases x)
  case (Directive d)
  assume "well_formed D x"
  with Directive show ?thesis by (simp add: loads_line_parses_back)
next
  case (FileRef f)
  assume wf: "well_formed D x"
  with FileRef obtain ei where ei: "external_info f = Some ei" "parses_back D ei"
      "is_EXTINF D ei" "is_path_line D (source f)"
    by (auto split: option.splits)
  have "loads_line D fs \<lparr> parsed_line = Some (Directive ei), last_external_info = Some ei \<rparr>
          (source f)
        = Inr \<lparr> parsed_line = Some (FileRef (AudioFileRef_init fs (source f) (Some ei) True True)),
                last_external_info = None \<rparr>"
    using ei(4) by (simp add: is_path_line_def loads_line_path)
  with FileRef ei show ?thesis by (simp add: loads_line_parses_back)
next
  case (DirRef r)
  assume "well_formed D x"
  with DirRef show ?thesis by simp
qed

lemma loads_lines_objs:
  "list_all (well_formed D) P \<Longrightarrow>
   \<exists>st'. loads_lines D fs st (concat (map (m3u_lines D) P))
           = (map Some (concat (map (loaded fs) P)), Inr st')"
proof (induction P arbitrary: st)
  case Nil
  then show ?case by simp
next
  case (Cons x P)
  then have "well_formed D x" and P: "list_all (well_formed D) P" by simp_all
  then obtain st1 where x: "loads_lines D fs st (m3u_lines D x) = (map Some (loaded fs x), Inr st1)"
    using loads_lines_obj by blast
  from Cons.IH [OF P] obtain st2 where
    "loads_lines D fs st1 (concat (map (m3u_lines D) P))
       = (map Some (concat (map (loaded fs) P)), Inr st2)"
    by blast
  with x show ?case by (simp add: loads_lines_append)
qed

text \<open>
  Claim C1, as the code has it. For a playlist of directives and of file references that
  each carry a metadata directive, all of them written to single lines that read back,
  \<open>loads\<close> of \<open>dumps\<close> of the playlist does not raise and yields, in order, each directive
  of the playlist as itself and each file reference as two items: its metadata directive,
  then a file reference with the same source and the same \<open>external_info\<close>.
\<close>

theorem loads_dumps:
  assumes "list_all (well_formed D) P"
  shows "\<exists>st. loads D fs (dumps D P) = (map Some (concat (map (loaded fs) P)), Inr st)"
proof -
  have "list_all single_line (concat (map (m3u_lines D) P))"
    using assms by (induction P) (simp_all add: well_formed_lines)
  then have "splitlines (dumps D P) = concat (map (m3u_lines D) P)"
    by (simp add: dumps_lines splitlines_join)
  with loads_lines_objs [OF assms] show ?thesis by (simp add: loads_def)
qed

theorem loads_dumps_witness:
  "list_all (well_formed spec_directives)
     [Directive (EXTINF ''5'' ''Intro''),
      FileRef \<lparr> source = ''/music/song.mp3'',
                external_info = Some (EXTINF ''123'' ''My Song''),
                exists = None, is_supported = None \<rparr>]
   \<and> fst (loads spec_directives music_fs
          (dumps spec_directives
             [Directive (EXTINF ''5'' ''Intro''),
              FileRef \<lparr> source = ''/music/song.mp3'',
                        external_info = Some (EXTINF ''123'' ''My Song''),
                        exists = None, is_supported = None \<rparr>]))
     = [Some (Directive (EXTINF ''5'' ''Intro'')),
        Some (Directive (EXTINF ''123'' ''My Song'')),
        Some (FileRef \<lparr> source = ''/music/song.mp3'',
                         external_info = Some (EXTINF ''123'' ''My Song''),
                         exists = Some True, is_supported = Some True \<rparr>)]"
proof -
  let ?P = "[Directive (EXTINF ''5'' ''Intro''),
      FileRef \<lparr> source = ''/music/song.mp3'',
                external_info = Some (EXTINF ''123'' ''My Song''),
                exists = None, is_supported = None \<rparr>]"
  have h: "list_all (well_formed spec_directives) ?P"
    by (simp add: parses_back_def is_path_line_def single_line_def EXTINF_as_m3u_def
                  str_eval spec_eval)
  have e: "map Some (concat (map (loaded music_fs) ?P))
     = [Some (Directive (EXTINF ''5'' ''Intro'')),
        Some (Directive (EXTINF ''123'' ''My Song'')),
        Some (FileRef \<lparr> source = ''/music/song.mp3'',
                         external_info = Some (EXTINF ''123'' ''My Song''),
                         exists = Some True, is_supported = Some True \<rparr>)]"
    by (simp add: ref_eval)
  from loads_dumps [OF h, of music_fs] obtain st where
    "loads spec_directives music_fs (dumps spec_directives ?P)
       = (map Some (concat (map (loaded music_fs) ?P)), Inr st)"
    by (rule exE)
  then have "fst (loads spec_directives music_fs (dumps spec_directives ?P))
       = map Some (concat (map (loaded music_fs) ?P))"
    by (rule arg_cong [where f = fst, THEN trans]) simp
  then have "fst (loads spec_directives music_fs (dumps spec_directives ?P))
     = [Some (Directive (EXTINF ''5'' ''Intro'')),
        Some (Directive (EXTINF ''123'' ''My Song'')),
        Some (FileRef \<lparr> source = ''/music/song.mp3'',
                         external_info = Some (EXTINF ''123'' ''My Song''),
                         exists = Some True, is_supported = Some True \<rparr>)]"
    by (rule trans [OF _ e])
  with h show ?thesis by (rule conjI)
qed

text \<open>
  The file reference of the spec's scenario, written and read back: \<open>loads\<close> yields the
  metadata directive and then the file reference, two items for the one that was written.
\<close>

theorem loads_dumps_file_with_metadata:
  "fst (loads spec_directives music_fs
          (dumps spec_directives
             [FileRef \<lparr> source = ''/music/song.mp3'',
                        external_info = Some (EXTINF ''123'' ''My Song''),
                        exists = Some True, is_supported = Some True \<rparr>]))
     = [Some (Directive (EXTINF ''123'' ''My Song'')),
        Some (FileRef \<lparr> source = ''/music/song.mp3'',
                         external_info = Some (EXTINF ''123'' ''My Song''),
                         exists = Some True, is_supported = Some True \<rparr>)]
   \<and> fst (loads spec_directives music_fs
          (dumps spec_directives
             [FileRef \<lparr> source = ''/music/song.mp3'',
                        external_info = Some (EXTINF ''123'' ''My Song''),
                        exists = Some True, is_supported = Some True \<rparr>]))
     \<noteq> [Some (FileRef \<lparr> source = ''/music/song.mp3'',
                          external_info = Some (EXTINF ''123'' ''My Song''),
                          exists = Some True, is_supported = Some True \<rparr>)]"
  by (simp add: loads_def loads_init_def loads_line_def dumps_def dumps_obj_def
                EXTINF_as_m3u_def str_eval spec_eval ref_eval)

end
